theory Spec2Isabelle
  imports Complex_Main
begin

section \<open>The schema: customers, orders, order items\<close>

text \<open>
  The three mapped classes of \<^verbatim>\<open>backend/app/models\<close> are tables of a relational store.
  A row is a record with one field per mapped column, at the column's type; the field
  names are the column names, prefixed by the table (\<open>c_\<close>, \<open>o_\<close>, \<open>i_\<close>) since the three
  tables share the names \<open>id\<close>, \<open>customer_id\<close> and \<open>order_id\<close>.

  \<^item> \<^verbatim>\<open>Mapped[int]\<close> columns are \<open>int\<close>, \<^verbatim>\<open>Mapped[str]\<close> columns are \<open>string\<close> (one \<open>char\<close>
    per character), \<^verbatim>\<open>Mapped[str | None]\<close> columns are \<open>string option\<close>.
  \<^item> \<^verbatim>\<open>DateTime(timezone=True)\<close> columns are a point in time, an \<open>int\<close>.
  \<^item> \<^verbatim>\<open>unit_price\<close> is \<^verbatim>\<open>Numeric(10, 2)\<close>: a fixed-point decimal of scale 2. The field holds
    the unscaled value, the price counted in hundredths; \<open>unit_price_value\<close> is the
    decimal it stands for.
\<close>

type_synonym timestamp = int

record Customer =
  c_id :: int
  c_name :: string
  c_email :: string
  c_company :: "string option"
  c_created_at :: timestamp

record Order =
  o_id :: int
  o_customer_id :: int
  o_order_date :: timestamp
  o_status :: string
  o_notes :: "string option"

record OrderItem =
  i_id :: int
  i_order_id :: int
  i_product_name :: string
  i_quantity :: int
  i_unit_price :: int

definition unit_price_value :: "OrderItem \<Rightarrow> rat" where
  "unit_price_value i = of_int (i_unit_price i) / 10 ^ 2"

text \<open>The stored dataset: the rows of each table, in insertion order.\<close>

record database =
  customers :: "Customer list"
  orders :: "Order list"
  order_items :: "OrderItem list"

definition empty_db :: database where
  "empty_db = \<lparr>customers = [], orders = [], order_items = []\<rparr>"

subsection \<open>Declared constraints\<close>

text \<open>
  Each declaration of the models that restricts a row is a predicate on the row:
  \<^verbatim>\<open>String(n)\<close> bounds the length, \<^verbatim>\<open>Numeric(10, 2)\<close> bounds the number of digits of the
  unscaled value, a \<^verbatim>\<open>CheckConstraint\<close> is its SQL expression.
\<close>

definition string_fits :: "nat \<Rightarrow> string \<Rightarrow> bool" where
  "string_fits n s = (length s \<le> n)"

definition opt_string_fits :: "nat \<Rightarrow> string option \<Rightarrow> bool" where
  "opt_string_fits n s = (case s of None \<Rightarrow> True | Some t \<Rightarrow> string_fits n t)"

definition numeric_fits :: "nat \<Rightarrow> int \<Rightarrow> bool" where
  "numeric_fits precision unscaled = (\<bar>unscaled\<bar> < 10 ^ precision)"

text \<open>\<^verbatim>\<open>check_status_values\<close>:
  \<^verbatim>\<open>status IN ('pending', 'processing', 'shipped', 'delivered', 'cancelled')\<close>.\<close>

definition status_values :: "string list" where
  "status_values = [''pending'', ''processing'', ''shipped'', ''delivered'', ''cancelled'']"

definition check_status_values :: "Order \<Rightarrow> bool" where
  "check_status_values ord = (o_status ord \<in> set status_values)"

text \<open>\<^verbatim>\<open>check_positive_quantity\<close>: \<^verbatim>\<open>quantity > 0\<close>;
  \<^verbatim>\<open>check_non_negative_price\<close>: \<^verbatim>\<open>unit_price >= 0\<close>.\<close>

definition check_positive_quantity :: "OrderItem \<Rightarrow> bool" where
  "check_positive_quantity i = (i_quantity i > 0)"

definition check_non_negative_price :: "OrderItem \<Rightarrow> bool" where
  "check_non_negative_price i = (i_unit_price i \<ge> 0)"

subsection \<open>The storage layer: inserts and deletes\<close>

text \<open>
  The constraints are enforced by the store at write time, not by application code.
  The store handles an insert in two steps. It first converts each supplied value to
  the type of its column; the result is the candidate row (\<open>store_customer\<close> and its
  siblings, below). It then checks the declared constraints on the candidate row:
  that is \<open>insert_customer\<close>, \<open>insert_order\<close> and \<open>insert_order_item\<close>, which take a row
  at its column types. They refuse a row in which a string or the unit price does not
  fit its column, which the conversion never hands them; then come the check
  constraints, the primary key and unique indexes, and the foreign key. A rejected insert stores nothing; otherwise the
  row is appended to its table.
\<close>

datatype db_error =
    StringTooLong string
  | NumericOverflow string
  | IntegerOutOfRange string
  | CheckViolation string
  | UniqueViolation string
  | ForeignKeyViolation string

definition insert_customer :: "Customer \<Rightarrow> database \<Rightarrow> db_error + database" where
  "insert_customer c db =
     (if \<not> string_fits 100 (c_name c) then Inl (StringTooLong ''name'')
      else if \<not> string_fits 255 (c_email c) then Inl (StringTooLong ''email'')
      else if \<not> opt_string_fits 100 (c_company c) then Inl (StringTooLong ''company'')
      else if c_id c \<in> set (map c_id (customers db)) then Inl (UniqueViolation ''id'')
      else if c_email c \<in> set (map c_email (customers db)) then Inl (UniqueViolation ''email'')
      else Inr (db\<lparr>customers := customers db @ [c]\<rparr>))"

definition insert_order :: "Order \<Rightarrow> database \<Rightarrow> db_error + database" where
  "insert_order ord db =
     (if \<not> string_fits 20 (o_status ord) then Inl (StringTooLong ''status'')
      else if \<not> check_status_values ord then Inl (CheckViolation ''check_status_values'')
      else if o_id ord \<in> set (map o_id (orders db)) then Inl (UniqueViolation ''id'')
      else if o_customer_id ord \<notin> set (map c_id (customers db))
        then Inl (ForeignKeyViolation ''customer_id'')
      else Inr (db\<lparr>orders := orders db @ [ord]\<rparr>))"

definition insert_order_item :: "OrderItem \<Rightarrow> database \<Rightarrow> db_error + database" where
  "insert_order_item i db =
     (if \<not> string_fits 200 (i_product_name i) then Inl (StringTooLong ''product_name'')
      else if \<not> numeric_fits 10 (i_unit_price i) then Inl (NumericOverflow ''unit_price'')
      else if \<not> check_positive_quantity i then Inl (CheckViolation ''check_positive_quantity'')
      else if \<not> check_non_negative_price i
        then Inl (CheckViolation ''check_non_negative_price'')
      else if i_id i \<in> set (map i_id (order_items db)) then Inl (UniqueViolation ''id'')
      else if i_order_id i \<notin> set (map o_id (orders db))
        then Inl (ForeignKeyViolation ''order_id'')
      else Inr (db\<lparr>order_items := order_items db @ [i]\<rparr>))"

text \<open>
  Deleting by primary key. Both foreign keys are declared \<^verbatim>\<open>ondelete="CASCADE"\<close>: the
  rows that reference a deleted row are deleted with it, and so on downwards.
\<close>

definition delete_order_item :: "int \<Rightarrow> database \<Rightarrow> database" where
  "delete_order_item iid db =
     db\<lparr>order_items := filter (\<lambda>i. i_id i \<noteq> iid) (order_items db)\<rparr>"

definition delete_order :: "int \<Rightarrow> database \<Rightarrow> database" where
  "delete_order oid db =
     db\<lparr>orders := filter (\<lambda>ord. o_id ord \<noteq> oid) (orders db),
        order_items := filter (\<lambda>i. i_order_id i \<noteq> oid) (order_items db)\<rparr>"

definition delete_customer :: "int \<Rightarrow> database \<Rightarrow> database" where
  "delete_customer cid db =
     (let gone = map o_id (filter (\<lambda>ord. o_customer_id ord = cid) (orders db))
      in db\<lparr>customers := filter (\<lambda>c. c_id c \<noteq> cid) (customers db),
            orders := filter (\<lambda>ord. o_customer_id ord \<noteq> cid) (orders db),
            order_items := filter (\<lambda>i. i_order_id i \<notin> set gone) (order_items db)\<rparr>)"

text \<open>
  The lifecycle of a dataset: rows are created by inserts and removed by deletes; there
  is no update. A rejected operation leaves the dataset as it was. The persisted
  datasets are those that a sequence of operations builds from the empty one.
\<close>

datatype db_op =
    InsertCustomer Customer
  | InsertOrder Order
  | InsertOrderItem OrderItem
  | DeleteCustomer int
  | DeleteOrder int
  | DeleteOrderItem int

fun apply_op :: "db_op \<Rightarrow> database \<Rightarrow> db_error + database" where
  "apply_op (InsertCustomer c) db = insert_customer c db"
| "apply_op (InsertOrder ord) db = insert_order ord db"
| "apply_op (InsertOrderItem i) db = insert_order_item i db"
| "apply_op (DeleteCustomer cid) db = Inr (delete_customer cid db)"
| "apply_op (DeleteOrder oid) db = Inr (delete_order oid db)"
| "apply_op (DeleteOrderItem iid) db = Inr (delete_order_item iid db)"

fun run :: "db_op list \<Rightarrow> database \<Rightarrow> database" where
  "run [] db = db"
| "run (x # xs) db =
     (case apply_op x db of Inl e \<Rightarrow> run xs db | Inr db' \<Rightarrow> run xs db')"

definition persisted :: "db_op list \<Rightarrow> database" where
  "persisted ops = run ops empty_db"

subsection \<open>Conversion of supplied values to the column types\<close>

text \<open>
  \<^verbatim>\<open>String(n)\<close> is the SQL type \<^verbatim>\<open>VARCHAR(n)\<close>. A supplied string of at most \<open>n\<close>
  characters is stored as it is. A longer one is an error, unless all the characters
  beyond the first \<open>n\<close> are spaces: then the string is cut to its first \<open>n\<close> characters
  and the insert goes on with that.
\<close>

definition varchar :: "nat \<Rightarrow> string \<Rightarrow> string \<Rightarrow> db_error + string" where
  "varchar n column s =
     (if string_fits n s then Inr s
      else if list_all (\<lambda>ch. ch = CHR '' '') (drop n s) then Inr (take n s)
      else Inl (StringTooLong column))"

definition opt_varchar :: "nat \<Rightarrow> string \<Rightarrow> string option \<Rightarrow> db_error + string option" where
  "opt_varchar n column s =
     (case s of
        None \<Rightarrow> Inr None
      | Some t \<Rightarrow> (case varchar n column t of Inl e \<Rightarrow> Inl e | Inr u \<Rightarrow> Inr (Some u)))"

text \<open>
  \<^verbatim>\<open>Numeric(precision, scale)\<close>: a supplied decimal (a finite \<^verbatim>\<open>Decimal\<close>, here a \<open>rat\<close>) is
  rounded to \<open>scale\<close> fractional digits, a tie away from zero; the result is the
  unscaled integer. It is an error when the rounded value needs more than \<open>precision\<close>
  digits.
\<close>

text \<open>\<^verbatim>\<open>Integer\<close> columns hold 32-bit signed integers; a supplied \<^verbatim>\<open>int\<close> outside that range
  is an error.\<close>

definition integer_fits :: "int \<Rightarrow> bool" where
  "integer_fits x = (- (2 ^ 31) \<le> x \<and> x < 2 ^ 31)"

definition round_half_away :: "rat \<Rightarrow> int" where
  "round_half_away x = (if x \<ge> 0 then \<lfloor>x + 1 / 2\<rfloor> else - \<lfloor>- x + 1 / 2\<rfloor>)"

definition numeric :: "nat \<Rightarrow> nat \<Rightarrow> string \<Rightarrow> rat \<Rightarrow> db_error + int" where
  "numeric precision scale column x =
     (let unscaled = round_half_away (x * 10 ^ scale)
      in if numeric_fits precision unscaled then Inr unscaled
         else Inl (NumericOverflow column))"

text \<open>
  The values that the application supplies for a customer or an order have the types
  of the row, so the same records hold them. For an order item the \<^verbatim>\<open>unit_price\<close>
  attribute is \<^verbatim>\<open>Mapped[Decimal]\<close>, any decimal, while the column holds hundredths.
\<close>

record OrderItemValues =
  v_id :: int
  v_order_id :: int
  v_product_name :: string
  v_quantity :: int
  v_unit_price :: rat



definition coerce_order_item :: "OrderItemValues \<Rightarrow> db_error + OrderItem" where
  "coerce_order_item v =
     (if \<not> integer_fits (v_id v) then Inl (IntegerOutOfRange ''id'')
      else if \<not> integer_fits (v_order_id v) then Inl (IntegerOutOfRange ''order_id'')
      else if \<not> integer_fits (v_quantity v) then Inl (IntegerOutOfRange ''quantity'')
      else
     (case varchar 200 ''product_name'' (v_product_name v) of Inl e \<Rightarrow> Inl e | Inr pn \<Rightarrow>
     (case numeric 10 2 ''unit_price'' (v_unit_price v) of Inl e \<Rightarrow> Inl e | Inr up \<Rightarrow>
        Inr \<lparr>i_id = v_id v, i_order_id = v_order_id v, i_product_name = pn,
             i_quantity = v_quantity v, i_unit_price = up\<rparr>)))"



definition store_order_item :: "OrderItemValues \<Rightarrow> database \<Rightarrow> db_error + database" where
  "store_order_item v db =
     (case coerce_order_item v of Inl e \<Rightarrow> Inl e | Inr row \<Rightarrow> insert_order_item row db)"

subsection \<open>Integrity of a dataset\<close>

text \<open>
  What the declarations promise of every stored dataset: primary keys and the unique
  \<^verbatim>\<open>email\<close> identify a row, every foreign key names a stored row, and every row
  satisfies the types and check constraints of its columns.
\<close>

definition pk_unique :: "database \<Rightarrow> bool" where
  "pk_unique db =
     (distinct (map c_id (customers db))
      \<and> distinct (map o_id (orders db))
      \<and> distinct (map i_id (order_items db)))"

definition email_unique :: "database \<Rightarrow> bool" where
  "email_unique db = distinct (map c_email (customers db))"

definition fk_integrity :: "database \<Rightarrow> bool" where
  "fk_integrity db =
     ((\<forall>ord \<in> set (orders db). o_customer_id ord \<in> set (map c_id (customers db)))
      \<and> (\<forall>i \<in> set (order_items db). i_order_id i \<in> set (map o_id (orders db))))"

definition customer_valid :: "Customer \<Rightarrow> bool" where
  "customer_valid c =
     (string_fits 100 (c_name c) \<and> string_fits 255 (c_email c)
      \<and> opt_string_fits 100 (c_company c))"

definition order_valid :: "Order \<Rightarrow> bool" where
  "order_valid ord = (string_fits 20 (o_status ord) \<and> check_status_values ord)"

definition order_item_valid :: "OrderItem \<Rightarrow> bool" where
  "order_item_valid i =
     (string_fits 200 (i_product_name i) \<and> numeric_fits 10 (i_unit_price i)
      \<and> check_positive_quantity i \<and> check_non_negative_price i)"

definition rows_valid :: "database \<Rightarrow> bool" where
  "rows_valid db =
     (list_all customer_valid (customers db)
      \<and> list_all order_valid (orders db)
      \<and> list_all order_item_valid (order_items db))"

subsection \<open>Relationships\<close>

text \<open>
  \<^verbatim>\<open>Order.customer\<close> and \<^verbatim>\<open>Order.items\<close> are the \<^verbatim>\<open>relationship\<close>s of the \<^verbatim>\<open>Order\<close> class: the
  row of \<^verbatim>\<open>customers\<close> that the order's foreign key names, and the rows of
  \<^verbatim>\<open>order_items\<close> whose foreign key names the order. \<^verbatim>\<open>Customer.orders\<close> is the other
  direction of the first.
\<close>

definition order_customer :: "database \<Rightarrow> Order \<Rightarrow> Customer option" where
  "order_customer db ord = find (\<lambda>c. c_id c = o_customer_id ord) (customers db)"

definition order_items_of :: "database \<Rightarrow> Order \<Rightarrow> OrderItem list" where
  "order_items_of db ord = filter (\<lambda>i. i_order_id i = o_id ord) (order_items db)"

definition customer_orders :: "database \<Rightarrow> Customer \<Rightarrow> Order list" where
  "customer_orders db c = filter (\<lambda>ord. o_customer_id ord = c_id c) (orders db)"

section \<open>The report aggregator\<close>

text \<open>
  Modelled from the spec: the output of the aggregator, section 4.2, whose code is not
  among the source files: one entry per order, and the metadata of the run. The keys
  are those that the end-to-end test reads. Money is an exact decimal (\<open>rat\<close>);
  counts are integers.
\<close>

record report_entry =
  order_id :: int
  customer_name :: string
  item_count :: int
  order_date :: timestamp
  status :: string
  total :: rat

record report_metadata =
  total_orders :: int
  execution_time_ms :: rat
  query_count :: int

record report_response =
  report :: "report_entry list"
  metadata :: report_metadata

datatype report_error = RelatedCustomerMissing int

text \<open>
  Modelled from the spec: the report aggregator and the endpoint \<^verbatim>\<open>GET /orders/report\<close>
  (the service, repository and route modules are not among the source files; only the
  models and the end-to-end test are). Section 4.2 of the specification: the
  aggregator reads the full order set and, for each order, computes \<open>order_id\<close>,
  \<open>customer_name\<close> via the related customer, \<open>item_count\<close> as the count of the related
  items, \<open>order_date\<close>, \<open>status\<close>, and \<open>total\<close> as the sum of quantity times unit price
  over the related items. The metadata hold the number of orders, the elapsed
  wall-clock time (measured outside the model, so a parameter here) and the number of
  storage round-trips: one to list the orders, then one per order. The store is
  taken to be reachable. An order whose customer row is missing has no customer name
  to report: the request fails.
\<close>

text \<open>Modelled from the spec: \<open>total\<close>, the sum of quantity times unit price over the
  items of an order (section 4.2).\<close>

definition order_total :: "OrderItem list \<Rightarrow> rat" where
  "order_total its = sum_list (map (\<lambda>i. of_int (i_quantity i) * unit_price_value i) its)"

text \<open>Modelled from the spec: the entry that the aggregator computes for one order
  (section 4.2).\<close>

definition report_entry_of :: "database \<Rightarrow> Order \<Rightarrow> report_error + report_entry" where
  "report_entry_of db ord =
     (case order_customer db ord of
        None \<Rightarrow> Inl (RelatedCustomerMissing (o_id ord))
      | Some c \<Rightarrow>
          Inr \<lparr>order_id = o_id ord,
               customer_name = c_name c,
               item_count = int (length (order_items_of db ord)),
               order_date = o_order_date ord,
               status = o_status ord,
               total = order_total (order_items_of db ord)\<rparr>)"

text \<open>Modelled from the spec: the aggregator's pass over the orders, one entry each,
  in the order of the table; the first failure ends it (section 4.2).\<close>

fun report_entries :: "database \<Rightarrow> Order list \<Rightarrow> report_error + report_entry list" where
  "report_entries db [] = Inr []"
| "report_entries db (ord # rest) =
     (case report_entry_of db ord of
        Inl e \<Rightarrow> Inl e
      | Inr entry \<Rightarrow>
          (case report_entries db rest of
             Inl e \<Rightarrow> Inl e
           | Inr entries \<Rightarrow> Inr (entry # entries)))"

text \<open>Modelled from the spec: the aggregator, with the report and its metadata
  (section 4.2).\<close>

definition orders_report :: "rat \<Rightarrow> database \<Rightarrow> report_error + report_response" where
  "orders_report elapsed_ms db =
     (case report_entries db (orders db) of
        Inl e \<Rightarrow> Inl e
      | Inr entries \<Rightarrow>
          Inr \<lparr>report = entries,
               metadata = \<lparr>total_orders = int (length entries),
                            execution_time_ms = elapsed_ms,
                            query_count = 1 + int (length (orders db))\<rparr>\<rparr>)"

text \<open>
  Modelled from the spec: the HTTP surface, section 4.3 and section 6: status 200 with
  the aggregator's output as the body, a server error with no report otherwise.
\<close>

definition get_orders_report :: "rat \<Rightarrow> database \<Rightarrow> nat \<times> report_response option" where
  "get_orders_report elapsed_ms db =
     (case orders_report elapsed_ms db of
        Inl e \<Rightarrow> (500, None)
      | Inr body \<Rightarrow> (200, Some body))"

section \<open>The end-to-end test\<close>

text \<open>
  \<^verbatim>\<open>test_orders_report_endpoint_e2e\<close> reads the endpoint's answer as JSON and asserts on
  it. A JSON value as Python's \<^verbatim>\<open>response.json()\<close> gives it: \<^verbatim>\<open>None\<close>, \<^verbatim>\<open>bool\<close>, \<^verbatim>\<open>int\<close>,
  \<^verbatim>\<open>float\<close> (a finite one, only ever compared with 0 here), \<^verbatim>\<open>str\<close>, \<^verbatim>\<open>list\<close>, and \<^verbatim>\<open>dict\<close>
  as an association list read with \<open>map_of\<close>.
\<close>

datatype json =
    JNull
  | JBool bool
  | JInt int
  | JFloat rat
  | JString string
  | JArray "json list"
  | JObject "(string \<times> json) list"

record http_response =
  status_code :: int
  json_body :: "json option"

text \<open>
  \<^verbatim>\<open>isinstance(v, int)\<close> holds of an \<^verbatim>\<open>int\<close> and of a \<^verbatim>\<open>bool\<close>, which is a subclass of \<^verbatim>\<open>int\<close>
  with \<^verbatim>\<open>True == 1\<close> and \<^verbatim>\<open>False == 0\<close>; \<open>py_int\<close> is the integer such a value compares as.
  \<^verbatim>\<open>isinstance(v, (int, float))\<close> adds the floats.
\<close>

fun py_int :: "json \<Rightarrow> int option" where
  "py_int (JInt n) = Some n"
| "py_int (JBool b) = Some (if b then 1 else 0)"
| "py_int _ = None"

fun py_number :: "json \<Rightarrow> rat option" where
  "py_number (JFloat x) = Some x"
| "py_number v = map_option of_int (py_int v)"

fun py_str :: "json \<Rightarrow> string option" where
  "py_str (JString s) = Some s"
| "py_str _ = None"

text \<open>\<^verbatim>\<open>isinstance(v, list)\<close>, and the values that can be subscripted by a string.\<close>

fun py_list :: "json \<Rightarrow> json list option" where
  "py_list (JArray xs) = Some xs"
| "py_list _ = None"

fun py_dict :: "json \<Rightarrow> (string \<times> json) list option" where
  "py_dict (JObject kvs) = Some kvs"
| "py_dict _ = None"

text \<open>
  The assertions on the first entry of the report (lines 46 to 62 of the test): each of
  the six keys is present, \<^verbatim>\<open>order_id\<close> and \<^verbatim>\<open>item_count\<close> are integers, \<^verbatim>\<open>customer_name\<close> and
  \<^verbatim>\<open>status\<close> strings, \<^verbatim>\<open>total\<close> a number, \<^verbatim>\<open>customer_name\<close> is not empty and \<^verbatim>\<open>item_count\<close> is
  positive. A first entry that is not a \<^verbatim>\<open>dict\<close> fails the test: either an \<^verbatim>\<open>in\<close> assertion
  fails or the subscript by a string raises.
\<close>

definition first_order_asserts :: "json \<Rightarrow> bool" where
  "first_order_asserts first_order =
     (case py_dict first_order of None \<Rightarrow> False | Some fo \<Rightarrow>
     (case map_of fo ''order_id'' of None \<Rightarrow> False | Some oid \<Rightarrow>
     (case map_of fo ''customer_name'' of None \<Rightarrow> False | Some cname \<Rightarrow>
     (case map_of fo ''item_count'' of None \<Rightarrow> False | Some icount \<Rightarrow>
     (case map_of fo ''order_date'' of None \<Rightarrow> False | Some odate \<Rightarrow>
     (case map_of fo ''status'' of None \<Rightarrow> False | Some st \<Rightarrow>
     (case map_of fo ''total'' of None \<Rightarrow> False | Some tot \<Rightarrow>
        py_int oid \<noteq> None
        \<and> py_str cname \<noteq> None
        \<and> py_int icount \<noteq> None
        \<and> py_str st \<noteq> None
        \<and> py_number tot \<noteq> None
        \<and> (case py_str cname of None \<Rightarrow> False | Some s \<Rightarrow> length s > 0)
        \<and> (case py_int icount of None \<Rightarrow> False | Some n \<Rightarrow> n > 0))))))))"

text \<open>
  The assertions on the metadata (lines 66 to 78): the three keys are present,
  \<^verbatim>\<open>total_orders\<close> and \<^verbatim>\<open>query_count\<close> are integers, \<^verbatim>\<open>execution_time_ms\<close> is a number,
  \<^verbatim>\<open>total_orders == len(report)\<close>, \<^verbatim>\<open>execution_time_ms >= 0\<close> and \<^verbatim>\<open>query_count > 0\<close>.
\<close>

definition metadata_asserts :: "json list \<Rightarrow> json \<Rightarrow> bool" where
  "metadata_asserts rep md =
     (case py_dict md of None \<Rightarrow> False | Some m \<Rightarrow>
     (case map_of m ''total_orders'' of None \<Rightarrow> False | Some tord \<Rightarrow>
     (case map_of m ''execution_time_ms'' of None \<Rightarrow> False | Some ms \<Rightarrow>
     (case map_of m ''query_count'' of None \<Rightarrow> False | Some qc \<Rightarrow>
        py_int tord \<noteq> None
        \<and> py_number ms \<noteq> None
        \<and> py_int qc \<noteq> None
        \<and> py_int tord = Some (int (length rep))
        \<and> (case py_number ms of None \<Rightarrow> False | Some x \<Rightarrow> x \<ge> 0)
        \<and> (case py_int qc of None \<Rightarrow> False | Some n \<Rightarrow> n > 0)))))"

text \<open>
  The whole test passes when no assertion fails and nothing raises: the status is
  200, the body is a JSON \<^verbatim>\<open>dict\<close> with the keys \<^verbatim>\<open>report\<close> and \<^verbatim>\<open>metadata\<close>, the report is a
  non-empty list, and the assertions on its first entry and on the metadata hold.
\<close>

definition test_orders_report_endpoint_e2e :: "http_response \<Rightarrow> bool" where
  "test_orders_report_endpoint_e2e response =
     (status_code response = 200
      \<and> (case Option.bind (json_body response) py_dict of None \<Rightarrow> False | Some data \<Rightarrow>
         (case map_of data ''report'' of None \<Rightarrow> False | Some report_value \<Rightarrow>
         (case map_of data ''metadata'' of None \<Rightarrow> False | Some md \<Rightarrow>
         (case py_list report_value of None \<Rightarrow> False | Some rep \<Rightarrow>
         (case rep of
            [] \<Rightarrow> False
          | first_order # _ \<Rightarrow>
              first_order_asserts first_order \<and> metadata_asserts rep md))))))"

text \<open>What a response reports as its query count, if it has one.\<close>

definition response_query_count :: "http_response \<Rightarrow> int option" where
  "response_query_count response =
     Option.bind (json_body response) (\<lambda>body.
     Option.bind (py_dict body) (\<lambda>data.
     Option.bind (map_of data ''metadata'') (\<lambda>md.
     Option.bind (py_dict md) (\<lambda>m.
     Option.bind (map_of m ''query_count'') py_int))))"

section \<open>Sample datasets\<close>

text \<open>
  One customer with two orders: the first for two pens at 1.50 and one bottle of ink
  at 9.99, the second for three pads at 2.50.
\<close>

definition alice :: Customer where
  "alice = \<lparr>c_id = 1, c_name = ''Alice'', c_email = ''alice@example.com'',
             c_company = None, c_created_at = 0\<rparr>"

definition order_1 :: Order where
  "order_1 = \<lparr>o_id = 10, o_customer_id = 1, o_order_date = 5,
               o_status = ''pending'', o_notes = None\<rparr>"

definition order_2 :: Order where
  "order_2 = \<lparr>o_id = 11, o_customer_id = 1, o_order_date = 6,
               o_status = ''shipped'', o_notes = None\<rparr>"

definition item_pens :: OrderItem where
  "item_pens = \<lparr>i_id = 100, i_order_id = 10, i_product_name = ''pen'',
                 i_quantity = 2, i_unit_price = 150\<rparr>"

definition item_ink :: OrderItem where
  "item_ink = \<lparr>i_id = 101, i_order_id = 10, i_product_name = ''ink'',
                i_quantity = 1, i_unit_price = 999\<rparr>"

definition item_pads :: OrderItem where
  "item_pads = \<lparr>i_id = 102, i_order_id = 11, i_product_name = ''pad'',
                 i_quantity = 3, i_unit_price = 250\<rparr>"

definition sample_ops :: "db_op list" where
  "sample_ops =
     [InsertCustomer alice, InsertOrder order_1, InsertOrder order_2,
      InsertOrderItem item_pens, InsertOrderItem item_ink, InsertOrderItem item_pads]"

definition sample_db :: database where
  "sample_db = \<lparr>customers = [alice], orders = [order_1, order_2],
                 order_items = [item_pens, item_ink, item_pads]\<rparr>"

text \<open>A customer whose name is the empty string, with one order that has no item.\<close>

definition nameless :: Customer where
  "nameless = \<lparr>c_id = 2, c_name = [], c_email = ''nobody@example.com'',
                c_company = None, c_created_at = 0\<rparr>"

definition order_bare :: Order where
  "order_bare = \<lparr>o_id = 20, o_customer_id = 2, o_order_date = 7,
                  o_status = ''pending'', o_notes = None\<rparr>"

definition bare_ops :: "db_op list" where
  "bare_ops = [InsertCustomer nameless, InsertOrder order_bare]"



definition fine_price_values :: OrderItemValues where
  "fine_price_values = \<lparr>v_id = 103, v_order_id = 11, v_product_name = ''nib'',
                         v_quantity = 1, v_unit_price = 9999 / 1000\<rparr>"

definition huge_price_values :: OrderItemValues where
  "huge_price_values = \<lparr>v_id = 104, v_order_id = 11, v_product_name = ''gem'',
                         v_quantity = 1, v_unit_price = 99999999995 / 1000\<rparr>"

text \<open>
  A response that reports one order and one storage round-trip.
\<close>

definition one_query_response :: http_response where
  "one_query_response =
     \<lparr>status_code = 200,
      json_body = Some (JObject
        [(''report'',
            JArray [JObject
              [(''order_id'', JInt 10), (''customer_name'', JString ''Alice''),
               (''item_count'', JInt 2), (''order_date'', JString ''2024-01-01T00:00:00Z''),
               (''status'', JString ''pending''), (''total'', JFloat (1299 / 100))]]),
         (''metadata'',
            JObject
              [(''total_orders'', JInt 1), (''execution_time_ms'', JFloat (5 / 2)),
               (''query_count'', JInt 1)])])\<rparr>"

section \<open>Invariants of the persisted datasets\<close>

lemma insert_customer_Inr:
  "insert_customer c db = Inr db' \<Longrightarrow>
     db' = db\<lparr>customers := customers db @ [c]\<rparr> \<and> customer_valid c
     \<and> c_id c \<notin> set (map c_id (customers db)) \<and> c_email c \<notin> set (map c_email (customers db))"
  by (simp add: insert_customer_def customer_valid_def split: if_splits)

lemma insert_order_Inr:
  "insert_order ord db = Inr db' \<Longrightarrow>
     db' = db\<lparr>orders := orders db @ [ord]\<rparr> \<and> order_valid ord
     \<and> o_id ord \<notin> set (map o_id (orders db))
     \<and> o_customer_id ord \<in> set (map c_id (customers db))"
  by (simp add: insert_order_def order_valid_def split: if_splits)

lemma insert_order_item_Inr:
  "insert_order_item i db = Inr db' \<Longrightarrow>
     db' = db\<lparr>order_items := order_items db @ [i]\<rparr> \<and> order_item_valid i
     \<and> i_id i \<notin> set (map i_id (order_items db))
     \<and> i_order_id i \<in> set (map o_id (orders db))"
  by (simp add: insert_order_item_def order_item_valid_def split: if_splits)

lemma apply_op_pk_unique:
  "apply_op x db = Inr db' \<Longrightarrow> pk_unique db \<Longrightarrow> pk_unique db'"
  by (cases x)
    (auto simp: pk_unique_def delete_customer_def delete_order_def delete_order_item_def
      distinct_map_filter dest!: insert_customer_Inr insert_order_Inr insert_order_item_Inr)

lemma apply_op_email_unique:
  "apply_op x db = Inr db' \<Longrightarrow> email_unique db \<Longrightarrow> email_unique db'"
  by (cases x)
    (auto simp: email_unique_def delete_customer_def delete_order_def delete_order_item_def
      distinct_map_filter dest!: insert_customer_Inr insert_order_Inr insert_order_item_Inr)

lemma apply_op_rows_valid:
  "apply_op x db = Inr db' \<Longrightarrow> rows_valid db \<Longrightarrow> rows_valid db'"
  by (cases x)
    (auto simp: rows_valid_def delete_customer_def delete_order_def delete_order_item_def
      list_all_iff dest!: insert_customer_Inr insert_order_Inr insert_order_item_Inr)

lemma delete_customer_fk:
  "fk_integrity db \<Longrightarrow> fk_integrity (delete_customer cid db)"
  unfolding fk_integrity_def delete_customer_def Let_def
  by (simp add: image_iff) metis

lemma delete_order_fk:
  "fk_integrity db \<Longrightarrow> fk_integrity (delete_order oid db)"
  unfolding fk_integrity_def delete_order_def
  by (auto simp: image_iff)

lemma delete_order_item_fk:
  "fk_integrity db \<Longrightarrow> fk_integrity (delete_order_item iid db)"
  unfolding fk_integrity_def delete_order_item_def
  by auto

lemma apply_op_fk_integrity:
  "apply_op x db = Inr db' \<Longrightarrow> fk_integrity db \<Longrightarrow> fk_integrity db'"
proof (cases x)
  case (InsertCustomer c)
  assume "apply_op x db = Inr db'" "fk_integrity db"
  with InsertCustomer show ?thesis
    by (auto simp: fk_integrity_def dest!: insert_customer_Inr)
next
  case (InsertOrder ord)
  assume "apply_op x db = Inr db'" "fk_integrity db"
  with InsertOrder show ?thesis
    by (auto simp: fk_integrity_def dest!: insert_order_Inr)
next
  case (InsertOrderItem i)
  assume "apply_op x db = Inr db'" "fk_integrity db"
  with InsertOrderItem show ?thesis
    by (auto simp: fk_integrity_def dest!: insert_order_item_Inr)
next
  case (DeleteCustomer cid)
  assume "apply_op x db = Inr db'" "fk_integrity db"
  with DeleteCustomer show ?thesis by (auto simp: delete_customer_fk)
next
  case (DeleteOrder oid)
  assume "apply_op x db = Inr db'" "fk_integrity db"
  with DeleteOrder show ?thesis by (auto simp: delete_order_fk)
next
  case (DeleteOrderItem iid)
  assume "apply_op x db = Inr db'" "fk_integrity db"
  with DeleteOrderItem show ?thesis by (auto simp: delete_order_item_fk)
qed

lemma run_invariant:
  assumes step: "\<And>x db db'. apply_op x db = Inr db' \<Longrightarrow> P db \<Longrightarrow> P db'"
  shows "P db \<Longrightarrow> P (run ops db)"
proof (induction ops arbitrary: db)
  case Nil
  then show ?case by simp
next
  case (Cons x xs)
  show ?case
  proof (cases "apply_op x db")
    case (Inl e)
    with Cons show ?thesis by simp
  next
    case (Inr db')
    with Cons step show ?thesis by simp
  qed
qed

lemma persisted_pk_unique: "pk_unique (persisted ops)"
proof -
  have "pk_unique empty_db"
    by (simp add: pk_unique_def empty_db_def)
  then show ?thesis
    unfolding persisted_def using apply_op_pk_unique by (rule run_invariant[where P = pk_unique, rotated])
qed

lemma persisted_email_unique: "email_unique (persisted ops)"
proof -
  have "email_unique empty_db"
    by (simp add: email_unique_def empty_db_def)
  then show ?thesis
    unfolding persisted_def using apply_op_email_unique by (rule run_invariant[where P = email_unique, rotated])
qed

lemma persisted_rows_valid: "rows_valid (persisted ops)"
proof -
  have "rows_valid empty_db"
    by (simp add: rows_valid_def empty_db_def)
  then show ?thesis
    unfolding persisted_def using apply_op_rows_valid by (rule run_invariant[where P = rows_valid, rotated])
qed

lemma persisted_fk_integrity: "fk_integrity (persisted ops)"
proof -
  have "fk_integrity empty_db"
    by (simp add: fk_integrity_def empty_db_def)
  then show ?thesis
    unfolding persisted_def using apply_op_fk_integrity by (rule run_invariant[where P = fk_integrity, rotated])
qed


lemma persisted_bare:
  "persisted bare_ops = \<lparr>customers = [nameless], orders = [order_bare], order_items = []\<rparr>"
  by (simp add: persisted_def bare_ops_def empty_db_def insert_customer_def insert_order_def
      string_fits_def opt_string_fits_def check_status_values_def status_values_def
      nameless_def order_bare_def)

lemma persisted_sample: "persisted sample_ops = sample_db"
  by (simp add: persisted_def sample_ops_def sample_db_def empty_db_def
      insert_customer_def insert_order_def insert_order_item_def
      string_fits_def opt_string_fits_def numeric_fits_def
      check_status_values_def status_values_def check_positive_quantity_def
      check_non_negative_price_def
      alice_def order_1_def order_2_def item_pens_def item_ink_def item_pads_def)

lemma order_customer_Some:
  assumes "fk_integrity db" and "ord \<in> set (orders db)"
  shows "\<exists>c. order_customer db ord = Some c \<and> c \<in> set (customers db)
             \<and> c_id c = o_customer_id ord"
proof -
  from assms obtain c0 where "c0 \<in> set (customers db)" "c_id c0 = o_customer_id ord"
    by (auto simp: fk_integrity_def)
  then have "find (\<lambda>c. c_id c = o_customer_id ord) (customers db) \<noteq> None"
    by (auto simp: find_None_iff)
  then obtain c where f: "find (\<lambda>c. c_id c = o_customer_id ord) (customers db) = Some c"
    by auto
  then have "c \<in> set (customers db) \<and> c_id c = o_customer_id ord"
    by (auto simp: find_Some_iff)
  with f show ?thesis by (simp add: order_customer_def)
qed

lemma order_customer_unique:
  assumes "pk_unique db" and "order_customer db ord = Some c"
    and "c' \<in> set (customers db)" and "c_id c' = o_customer_id ord"
  shows "c' = c"
proof -
  from assms(2) have "c \<in> set (customers db)" "c_id c = o_customer_id ord"
    by (auto simp: order_customer_def find_Some_iff)
  moreover from assms(1) have "inj_on c_id (set (customers db))"
    by (simp add: pk_unique_def distinct_map)
  ultimately show ?thesis using assms(3,4) by (simp add: inj_on_def)
qed

lemma report_entries_total:
  assumes "\<forall>ord \<in> set os. \<exists>c. order_customer db ord = Some c"
  shows "\<exists>es. report_entries db os = Inr es \<and> length es = length os
           \<and> (\<forall>k < length os. report_entry_of db (os ! k) = Inr (es ! k))"
  using assms
proof (induction os)
  case Nil
  then show ?case by simp
next
  case (Cons ord rest)
  then obtain es where es: "report_entries db rest = Inr es" "length es = length rest"
    "\<forall>k < length rest. report_entry_of db (rest ! k) = Inr (es ! k)"
    by auto
  from Cons.prems obtain c where "order_customer db ord = Some c" by auto
  then obtain e where e: "report_entry_of db ord = Inr e"
    by (simp add: report_entry_of_def)
  have "\<forall>k < length (ord # rest). report_entry_of db ((ord # rest) ! k) = Inr ((e # es) ! k)"
    using e es(3) by (auto simp: nth_Cons split: nat.splits)
  with e es show ?case by simp
qed

lemma orders_report_persisted:
  "\<exists>resp. orders_report elapsed (persisted ops) = Inr resp
     \<and> length (report resp) = length (orders (persisted ops))
     \<and> (\<forall>k < length (orders (persisted ops)).
          report_entry_of (persisted ops) (orders (persisted ops) ! k) = Inr (report resp ! k))"
proof -
  let ?db = "persisted ops"
  have "\<forall>ord \<in> set (orders ?db). \<exists>c. order_customer ?db ord = Some c"
    using order_customer_Some[OF persisted_fk_integrity] by blast
  from report_entries_total[OF this] obtain es where
    "report_entries ?db (orders ?db) = Inr es" "length es = length (orders ?db)"
    "\<forall>k < length (orders ?db). report_entry_of ?db (orders ?db ! k) = Inr (es ! k)"
    by blast
  then show ?thesis by (simp add: orders_report_def)
qed

lemma report_entry_of_fields:
  assumes "report_entry_of db ord = Inr e"
  shows "\<exists>c. order_customer db ord = Some c \<and> customer_name e = c_name c
           \<and> order_id e = o_id ord
           \<and> item_count e = int (length (filter (\<lambda>i. i_order_id i = o_id ord) (order_items db)))
           \<and> order_date e = o_order_date ord \<and> status e = o_status ord
           \<and> total e = (\<Sum>i\<leftarrow>filter (\<lambda>i. i_order_id i = o_id ord) (order_items db).
                          of_int (i_quantity i) * unit_price_value i)"
  using assms
  by (auto simp: report_entry_of_def order_items_of_def order_total_def split: option.splits)

lemma unit_price_value_bound:
  "\<bar>unit_price_value i\<bar> < 10 ^ 8 \<longleftrightarrow> numeric_fits 10 (i_unit_price i)"
proof -
  have "\<bar>unit_price_value i\<bar> = of_int \<bar>i_unit_price i\<bar> / 100"
    by (simp add: unit_price_value_def)
  also have "\<dots> < 10 ^ 8 \<longleftrightarrow> (of_int \<bar>i_unit_price i\<bar> :: rat) < of_int (10 ^ 10)"
    by (simp add: divide_less_eq)
  also have "\<dots> \<longleftrightarrow> \<bar>i_unit_price i\<bar> < 10 ^ 10"
    by (rule of_int_less_iff)
  finally show ?thesis by (simp add: numeric_fits_def)
qed

subsection \<open>Conversion of supplied values\<close>

lemma varchar_Inr:
  assumes "varchar n col s = Inr t"
  shows "t = take n s \<and> length t \<le> n
     \<and> (length s \<le> n \<or> list_all (\<lambda>ch. ch = CHR '' '') (drop n s))"
proof (cases "string_fits n s")
  case True
  with assms have "t = s" by (simp add: varchar_def)
  with True show ?thesis by (simp add: string_fits_def)
next
  case False
  with assms have "list_all (\<lambda>ch. ch = CHR '' '') (drop n s)" "t = take n s"
    by (simp_all add: varchar_def split: if_splits)
  then show ?thesis by simp
qed

lemma varchar_Inl:
  assumes "length s > n" and "\<not> list_all (\<lambda>ch. ch = CHR '' '') (drop n s)"
  shows "\<exists>e. varchar n col s = Inl e"
  using assms by (simp add: varchar_def string_fits_def)


lemma opt_varchar_Inl:
  assumes "so = Some s" and "length s > n"
    and "\<not> list_all (\<lambda>ch. ch = CHR '' '') (drop n s)"
  shows "\<exists>e. opt_varchar n col so = Inl e"
  using varchar_Inl[OF assms(2,3), of col] assms(1) by (auto simp: opt_varchar_def)

lemma round_half_away_near: "\<bar>of_int (round_half_away x) - x\<bar> \<le> 1 / 2"
proof (cases "x \<ge> 0")
  case True
  have "of_int \<lfloor>x + 1 / 2\<rfloor> \<le> x + 1 / 2" "x + 1 / 2 < of_int \<lfloor>x + 1 / 2\<rfloor> + 1"
    by linarith+
  then have "\<bar>of_int \<lfloor>x + 1 / 2\<rfloor> - x\<bar> \<le> 1 / 2"
    by linarith
  with True show ?thesis by (simp only: round_half_away_def if_True)
next
  case False
  have "of_int \<lfloor>- x + 1 / 2\<rfloor> \<le> - x + 1 / 2" "- x + 1 / 2 < of_int \<lfloor>- x + 1 / 2\<rfloor> + 1"
    by linarith+
  then have "\<bar>- of_int \<lfloor>- x + 1 / 2\<rfloor> - x\<bar> \<le> 1 / 2"
    by linarith
  with False show ?thesis by (simp only: round_half_away_def if_False of_int_minus)
qed

lemma round_half_away_of_int: "round_half_away (of_int m) = m"
proof -
  have "\<lfloor>(of_int m :: rat) + 1 / 2\<rfloor> = m"
    by (rule floor_unique) simp_all
  moreover have "\<lfloor>- (of_int m :: rat) + 1 / 2\<rfloor> = - m"
    by (rule floor_unique) simp_all
  ultimately show ?thesis by (simp add: round_half_away_def)
qed

lemma round_half_away_large:
  assumes "\<bar>x\<bar> \<ge> of_int k"
  shows "\<bar>round_half_away x\<bar> \<ge> k"
proof (cases "x \<ge> 0")
  case True
  with assms have "of_int k \<le> x + 1 / 2" by simp
  then have "k \<le> \<lfloor>x + 1 / 2\<rfloor>" by (simp add: le_floor_iff)
  with True show ?thesis by (simp add: round_half_away_def)
next
  case False
  with assms have "of_int k \<le> - x + 1 / 2" by simp
  then have "k \<le> \<lfloor>- x + 1 / 2\<rfloor>" by (simp add: le_floor_iff)
  with False show ?thesis by (simp add: round_half_away_def)
qed

lemma numeric_Inr:
  "numeric 10 2 col p = Inr n \<Longrightarrow> n = round_half_away (p * 10 ^ 2) \<and> numeric_fits 10 n"
  by (auto simp: numeric_def Let_def split: if_splits)

lemma numeric_Inl:
  "\<not> numeric_fits 10 (round_half_away (p * 10 ^ 2)) \<Longrightarrow> \<exists>e. numeric 10 2 col p = Inl e"
  by (simp add: numeric_def Let_def)



lemma coerce_order_item_Inr:
  assumes "coerce_order_item v = Inr row"
  shows "row = \<lparr>i_id = v_id v, i_order_id = v_order_id v,
            i_product_name = take 200 (v_product_name v), i_quantity = v_quantity v,
            i_unit_price = round_half_away (v_unit_price v * 10 ^ 2)\<rparr>
     \<and> string_fits 200 (i_product_name row) \<and> numeric_fits 10 (i_unit_price row)"
proof -
  from assms obtain pn up where
    v: "varchar 200 ''product_name'' (v_product_name v) = Inr pn"
      "numeric 10 2 ''unit_price'' (v_unit_price v) = Inr up"
    and r: "row = \<lparr>i_id = v_id v, i_order_id = v_order_id v, i_product_name = pn,
                  i_quantity = v_quantity v, i_unit_price = up\<rparr>"
    by (auto simp: coerce_order_item_def split: sum.splits if_splits)
  from varchar_Inr[OF v(1)] have pn: "pn = take 200 (v_product_name v)" "length pn \<le> 200"
    by auto
  from numeric_Inr[OF v(2)] have up: "up = round_half_away (v_unit_price v * 10 ^ 2)"
    "numeric_fits 10 up"
    by auto
  have "string_fits 200 (i_product_name row) \<and> numeric_fits 10 (i_unit_price row)"
    unfolding r using pn(2) up(2) by (simp add: string_fits_def)
  moreover have "row = \<lparr>i_id = v_id v, i_order_id = v_order_id v,
            i_product_name = take 200 (v_product_name v), i_quantity = v_quantity v,
            i_unit_price = round_half_away (v_unit_price v * 10 ^ 2)\<rparr>"
    unfolding r pn(1) up(1) ..
  ultimately show ?thesis by blast
qed



lemma store_order_item_Inr:
  "store_order_item v db = Inr db' \<Longrightarrow>
     \<exists>row. coerce_order_item v = Inr row \<and> insert_order_item row db = Inr db'"
  by (auto simp: store_order_item_def split: sum.splits)

lemma run_append: "run (xs @ ys) db = run ys (run xs db)"
  by (induction xs arbitrary: db) (auto split: sum.splits)

lemma persisted_step:
  "apply_op x (persisted ops) = Inr db' \<Longrightarrow> db' = persisted (ops @ [x])"
  by (simp add: persisted_def run_append)



lemma store_order_item_persisted:
  "store_order_item v (persisted ops) = Inr db' \<Longrightarrow> \<exists>ops'. db' = persisted ops'"
proof -
  assume "store_order_item v (persisted ops) = Inr db'"
  from store_order_item_Inr[OF this] obtain row where
    "insert_order_item row (persisted ops) = Inr db'" by blast
  then have "apply_op (InsertOrderItem row) (persisted ops) = Inr db'" by simp
  from persisted_step[OF this] show ?thesis by blast
qed



lemma store_Inl_or_Inr: "(\<exists>e. (r :: db_error + database) = Inl e) \<or> (\<exists>db'. r = Inr db')"
  by (cases r) auto



lemma store_order_item_row:
  assumes "store_order_item v db = Inr db'"
  shows "\<exists>row. db' = db\<lparr>order_items := order_items db @ [row]\<rparr>
           \<and> i_product_name row = take 200 (v_product_name v)
           \<and> i_unit_price row = round_half_away (v_unit_price v * 10 ^ 2)
           \<and> numeric_fits 10 (i_unit_price row)"
proof -
  from store_order_item_Inr[OF assms] obtain row where
    r: "coerce_order_item v = Inr row" "insert_order_item row db = Inr db'" by blast
  from coerce_order_item_Inr[OF r(1)] have
    "i_product_name row = take 200 (v_product_name v)"
    "i_unit_price row = round_half_away (v_unit_price v * 10 ^ 2)"
    "numeric_fits 10 (i_unit_price row)"
    by auto
  with insert_order_item_Inr[OF r(2)] show ?thesis by blast
qed

lemma varchar_ok:
  assumes "length s \<le> n \<or> list_all (\<lambda>ch. ch = CHR '' '') (drop n s)"
  shows "varchar n col s = Inr (take n s)"
proof (cases "string_fits n s")
  case True
  then show ?thesis by (simp add: varchar_def string_fits_def)
next
  case False
  with assms have "list_all (\<lambda>ch. ch = CHR '' '') (drop n s)"
    by (simp add: string_fits_def)
  with False show ?thesis by (simp add: varchar_def)
qed



lemma store_order_item_truncates:
  assumes "integer_fits (v_id v)" "integer_fits (v_order_id v)" "integer_fits (v_quantity v)"
    and "length (v_product_name v) \<le> 200
         \<or> list_all (\<lambda>ch. ch = CHR '' '') (drop 200 (v_product_name v))"
    and "\<bar>round_half_away (v_unit_price v * 10 ^ 2)\<bar> < 10 ^ 10"
  shows "store_order_item v db
     = insert_order_item \<lparr>i_id = v_id v, i_order_id = v_order_id v,
           i_product_name = take 200 (v_product_name v), i_quantity = v_quantity v,
           i_unit_price = round_half_away (v_unit_price v * 10 ^ 2)\<rparr> db"
proof -
  from assms(5) have "numeric 10 2 ''unit_price'' (v_unit_price v)
      = Inr (round_half_away (v_unit_price v * 10 ^ 2))"
    by (simp add: numeric_def Let_def numeric_fits_def)
  then have "coerce_order_item v
      = Inr \<lparr>i_id = v_id v, i_order_id = v_order_id v,
           i_product_name = take 200 (v_product_name v), i_quantity = v_quantity v,
           i_unit_price = round_half_away (v_unit_price v * 10 ^ 2)\<rparr>"
    unfolding coerce_order_item_def
    by (simp add: assms(1,2,3) varchar_ok[OF assms(4)])
  then show ?thesis by (simp add: store_order_item_def)
qed

lemma numeric_fine: "numeric 10 2 ''unit_price'' (9999 / 1000) = Inr 1000"
  by code_simp

lemma round_fine: "round_half_away (9999 / 1000 * 10 ^ 2) = 1000"
  by code_simp

lemma round_huge: "round_half_away (99999999995 / 1000 * 10 ^ 2) = 10 ^ 10"
  by code_simp

section \<open>The claims\<close>

text \<open>
  C1. On every persisted dataset the aggregator answers, with one entry per order in
  the order of the table; the entry of an order carries the order's id, as total the
  sum of quantity times unit price over the items that reference the order, as item
  count the number of those items, and the name of the customer the order references.
  In particular, for one customer with two orders the report has exactly two entries,
  whose totals are the sums over the items of the first and of the second order.
\<close>

theorem report_entry_per_order:
  "\<exists>resp. orders_report elapsed (persisted ops) = Inr resp
     \<and> length (report resp) = length (orders (persisted ops))
     \<and> (\<forall>k < length (orders (persisted ops)).
          order_id (report resp ! k) = o_id (orders (persisted ops) ! k)
          \<and> total (report resp ! k)
              = (\<Sum>i\<leftarrow>filter (\<lambda>i. i_order_id i = o_id (orders (persisted ops) ! k))
                         (order_items (persisted ops)).
                   of_int (i_quantity i) * unit_price_value i)
          \<and> item_count (report resp ! k)
              = int (length (filter (\<lambda>i. i_order_id i = o_id (orders (persisted ops) ! k))
                         (order_items (persisted ops))))
          \<and> (\<exists>c \<in> set (customers (persisted ops)).
                c_id c = o_customer_id (orders (persisted ops) ! k))
          \<and> (\<forall>c \<in> set (customers (persisted ops)).
                c_id c = o_customer_id (orders (persisted ops) ! k)
                \<longrightarrow> customer_name (report resp ! k) = c_name c))
     \<and> (\<forall>c o1 o2. customers (persisted ops) = [c] \<and> orders (persisted ops) = [o1, o2]
          \<longrightarrow> map total (report resp)
              = [\<Sum>i\<leftarrow>filter (\<lambda>i. i_order_id i = o_id o1) (order_items (persisted ops)).
                   of_int (i_quantity i) * unit_price_value i,
                 \<Sum>i\<leftarrow>filter (\<lambda>i. i_order_id i = o_id o2) (order_items (persisted ops)).
                   of_int (i_quantity i) * unit_price_value i])"
proof -
  let ?db = "persisted ops"
  from orders_report_persisted[of elapsed ops] obtain resp where
    r: "orders_report elapsed ?db = Inr resp"
    and len: "length (report resp) = length (orders ?db)"
    and ent: "\<forall>k < length (orders ?db). report_entry_of ?db (orders ?db ! k) = Inr (report resp ! k)"
    by blast
  have per: "order_id (report resp ! k) = o_id (orders ?db ! k)
      \<and> total (report resp ! k)
          = (\<Sum>i\<leftarrow>filter (\<lambda>i. i_order_id i = o_id (orders ?db ! k)) (order_items ?db).
               of_int (i_quantity i) * unit_price_value i)
      \<and> item_count (report resp ! k)
          = int (length (filter (\<lambda>i. i_order_id i = o_id (orders ?db ! k)) (order_items ?db)))
      \<and> (\<exists>c \<in> set (customers ?db). c_id c = o_customer_id (orders ?db ! k))
      \<and> (\<forall>c \<in> set (customers ?db). c_id c = o_customer_id (orders ?db ! k)
            \<longrightarrow> customer_name (report resp ! k) = c_name c)"
    if k: "k < length (orders ?db)" for k
  proof -
    let ?ord = "orders ?db ! k"
    from ent k have "report_entry_of ?db ?ord = Inr (report resp ! k)" by simp
    from report_entry_of_fields[OF this] obtain c0 where
      c0: "order_customer ?db ?ord = Some c0" "customer_name (report resp ! k) = c_name c0"
      and rest: "order_id (report resp ! k) = o_id ?ord"
        "item_count (report resp ! k)
           = int (length (filter (\<lambda>i. i_order_id i = o_id ?ord) (order_items ?db)))"
        "total (report resp ! k)
           = (\<Sum>i\<leftarrow>filter (\<lambda>i. i_order_id i = o_id ?ord) (order_items ?db).
                of_int (i_quantity i) * unit_price_value i)"
      by blast
    from k have "?ord \<in> set (orders ?db)" by simp
    from order_customer_Some[OF persisted_fk_integrity this]
    have ex: "\<exists>c \<in> set (customers ?db). c_id c = o_customer_id ?ord" by blast
    have "\<forall>c \<in> set (customers ?db). c_id c = o_customer_id ?ord
            \<longrightarrow> customer_name (report resp ! k) = c_name c"
      using order_customer_unique[OF persisted_pk_unique c0(1)] c0(2) by blast
    with rest ex show ?thesis by blast
  qed
  have two: "map total (report resp)
      = [\<Sum>i\<leftarrow>filter (\<lambda>i. i_order_id i = o_id o1) (order_items ?db).
           of_int (i_quantity i) * unit_price_value i,
         \<Sum>i\<leftarrow>filter (\<lambda>i. i_order_id i = o_id o2) (order_items ?db).
           of_int (i_quantity i) * unit_price_value i]"
    if os: "orders ?db = [o1, o2]" for o1 o2
  proof -
    from len os obtain e1 e2 where es: "report resp = [e1, e2]"
      by (cases "report resp"; cases "tl (report resp)") auto
    from per[of 0] os es have "total e1
        = (\<Sum>i\<leftarrow>filter (\<lambda>i. i_order_id i = o_id o1) (order_items ?db).
             of_int (i_quantity i) * unit_price_value i)" by simp
    moreover from per[of 1] os es have "total e2
        = (\<Sum>i\<leftarrow>filter (\<lambda>i. i_order_id i = o_id o2) (order_items ?db).
             of_int (i_quantity i) * unit_price_value i)" by simp
    ultimately show ?thesis using es by simp
  qed
  from r len per two show ?thesis by blast
qed

theorem report_entry_per_order_witness:
  "customers (persisted sample_ops) = [alice]
   \<and> orders (persisted sample_ops) = [order_1, order_2]
   \<and> (\<exists>resp. orders_report 0 (persisted sample_ops) = Inr resp
         \<and> map total (report resp) = [1299 / 100, 15 / 2])"
proof -
  have db: "persisted sample_ops = sample_db"
    by (rule persisted_sample)
  from report_entry_per_order[of 0 sample_ops] obtain resp where
    r: "orders_report 0 (persisted sample_ops) = Inr resp"
    and two: "\<forall>c o1 o2. customers (persisted sample_ops) = [c]
          \<and> orders (persisted sample_ops) = [o1, o2]
          \<longrightarrow> map total (report resp)
              = [\<Sum>i\<leftarrow>filter (\<lambda>i. i_order_id i = o_id o1) (order_items (persisted sample_ops)).
                   of_int (i_quantity i) * unit_price_value i,
                 \<Sum>i\<leftarrow>filter (\<lambda>i. i_order_id i = o_id o2) (order_items (persisted sample_ops)).
                   of_int (i_quantity i) * unit_price_value i]"
    by blast
  have "customers (persisted sample_ops) = [alice]
      \<and> orders (persisted sample_ops) = [order_1, order_2]"
    by (simp add: db sample_db_def)
  with two have "map total (report resp)
      = [\<Sum>i\<leftarrow>filter (\<lambda>i. i_order_id i = o_id order_1) (order_items (persisted sample_ops)).
           of_int (i_quantity i) * unit_price_value i,
         \<Sum>i\<leftarrow>filter (\<lambda>i. i_order_id i = o_id order_2) (order_items (persisted sample_ops)).
           of_int (i_quantity i) * unit_price_value i]"
    by blast
  then have "map total (report resp) = [1299 / 100, 15 / 2]"
    by (simp add: db sample_db_def order_1_def order_2_def item_pens_def item_ink_def
        item_pads_def unit_price_value_def)
  with r db show ?thesis
    by (simp add: sample_db_def)
qed

text \<open>
  C2. In every response of the aggregator, on any dataset, \<open>total_orders\<close> is the
  length of the report; and on every persisted dataset the aggregator does respond.
\<close>

theorem total_orders_is_report_length:
  "(\<forall>resp. orders_report elapsed db = Inr resp
      \<longrightarrow> total_orders (metadata resp) = int (length (report resp)))
   \<and> (\<exists>resp. orders_report elapsed (persisted ops) = Inr resp
         \<and> total_orders (metadata resp) = int (length (report resp))
         \<and> length (report resp) = length (orders (persisted ops)))"
proof -
  have a: "total_orders (metadata resp) = int (length (report resp))"
    if "orders_report elapsed' db' = Inr resp" for resp elapsed' db'
    using that by (auto simp: orders_report_def split: sum.splits)
  from orders_report_persisted[of elapsed ops] obtain resp where
    "orders_report elapsed (persisted ops) = Inr resp"
    "length (report resp) = length (orders (persisted ops))"
    by blast
  with a[of elapsed "persisted ops" resp] a[of elapsed db] show ?thesis by blast
qed

theorem total_orders_is_report_length_witness:
  "\<exists>resp. orders_report 0 (persisted sample_ops) = Inr resp
     \<and> total_orders (metadata resp) = 2 \<and> length (report resp) = 2"
  using total_orders_is_report_length[of 0 sample_db sample_ops]
  by (auto simp: persisted_sample sample_db_def)

text \<open>
  C3, as stated, fails: the test passes on a response whose \<open>query_count\<close> is 1.
\<close>

theorem test_accepts_query_count_one:
  "test_orders_report_endpoint_e2e one_query_response
   \<and> response_query_count one_query_response = Some 1"
  by (simp add: test_orders_report_endpoint_e2e_def one_query_response_def
      response_query_count_def first_order_asserts_def metadata_asserts_def)

text \<open>
  C3, amended. What the test asserts of \<open>metadata.query_count\<close> is that it is an
  integer greater than 0: on every response that passes the test the query count is
  present and positive.
\<close>

theorem test_asserts_query_count_positive:
  "test_orders_report_endpoint_e2e response
   \<Longrightarrow> \<exists>n. response_query_count response = Some n \<and> n > 0"
  by (auto simp: test_orders_report_endpoint_e2e_def response_query_count_def
      metadata_asserts_def split: option.splits list.splits Option.bind_splits)

theorem test_asserts_query_count_positive_witness:
  "test_orders_report_endpoint_e2e one_query_response
   \<and> (\<exists>n. response_query_count one_query_response = Some n \<and> n > 0)"
proof -
  have h: "test_orders_report_endpoint_e2e one_query_response"
    by (simp add: test_orders_report_endpoint_e2e_def one_query_response_def
        first_order_asserts_def metadata_asserts_def)
  from h test_asserts_query_count_positive[OF h] show ?thesis by blast
qed

text \<open>
  C4. Deleting a customer of a persisted dataset deletes the customer, every order
  that references it and every item that references such an order, and keeps the
  orders of the other customers; deleting an order deletes every item that references
  it. After either delete no orphan remains: every stored order still references a
  stored customer and every stored item a stored order.
\<close>

theorem delete_cascades:
  "(cid \<notin> set (map c_id (customers (delete_customer cid (persisted ops)))))
   \<and> (\<forall>ord \<in> set (orders (persisted ops)).
         (o_customer_id ord = cid
            \<longrightarrow> ord \<notin> set (orders (delete_customer cid (persisted ops)))
              \<and> (\<forall>i \<in> set (order_items (persisted ops)).
                    i_order_id i = o_id ord
                    \<longrightarrow> i \<notin> set (order_items (delete_customer cid (persisted ops)))))
         \<and> (o_customer_id ord \<noteq> cid
            \<longrightarrow> ord \<in> set (orders (delete_customer cid (persisted ops)))))
   \<and> (\<forall>ord \<in> set (orders (delete_customer cid (persisted ops))).
         o_customer_id ord \<in> set (map c_id (customers (delete_customer cid (persisted ops)))))
   \<and> (\<forall>i \<in> set (order_items (delete_customer cid (persisted ops))).
         i_order_id i \<in> set (map o_id (orders (delete_customer cid (persisted ops)))))
   \<and> (oid \<notin> set (map o_id (orders (delete_order oid (persisted ops)))))
   \<and> (\<forall>i \<in> set (order_items (persisted ops)).
         i_order_id i = oid \<longrightarrow> i \<notin> set (order_items (delete_order oid (persisted ops))))
   \<and> (\<forall>i \<in> set (order_items (delete_order oid (persisted ops))).
         i_order_id i \<in> set (map o_id (orders (delete_order oid (persisted ops)))))"
proof -
  let ?db = "persisted ops"
  have gone: "cid \<notin> set (map c_id (customers (delete_customer cid ?db)))"
    by (auto simp: delete_customer_def Let_def)
  have ords: "\<forall>ord \<in> set (orders ?db).
         (o_customer_id ord = cid
            \<longrightarrow> ord \<notin> set (orders (delete_customer cid ?db))
              \<and> (\<forall>i \<in> set (order_items ?db).
                    i_order_id i = o_id ord
                    \<longrightarrow> i \<notin> set (order_items (delete_customer cid ?db))))
         \<and> (o_customer_id ord \<noteq> cid
            \<longrightarrow> ord \<in> set (orders (delete_customer cid ?db)))"
    by (auto simp: delete_customer_def Let_def)
  have "fk_integrity (delete_customer cid ?db)"
    using persisted_fk_integrity by (rule delete_customer_fk)
  then have fkc: "(\<forall>ord \<in> set (orders (delete_customer cid ?db)).
         o_customer_id ord \<in> set (map c_id (customers (delete_customer cid ?db))))
     \<and> (\<forall>i \<in> set (order_items (delete_customer cid ?db)).
         i_order_id i \<in> set (map o_id (orders (delete_customer cid ?db))))"
    unfolding fk_integrity_def .
  have ogone: "oid \<notin> set (map o_id (orders (delete_order oid ?db)))"
    by (auto simp: delete_order_def)
  have items: "\<forall>i \<in> set (order_items ?db).
         i_order_id i = oid \<longrightarrow> i \<notin> set (order_items (delete_order oid ?db))"
    by (auto simp: delete_order_def)
  have "fk_integrity (delete_order oid ?db)"
    using persisted_fk_integrity by (rule delete_order_fk)
  then have fko: "\<forall>i \<in> set (order_items (delete_order oid ?db)).
         i_order_id i \<in> set (map o_id (orders (delete_order oid ?db)))"
    unfolding fk_integrity_def by blast
  from gone ords fkc ogone items fko show ?thesis by blast
qed

theorem delete_cascades_witness:
  "order_1 \<in> set (orders (persisted sample_ops)) \<and> o_customer_id order_1 = 1
   \<and> item_pens \<in> set (order_items (persisted sample_ops)) \<and> i_order_id item_pens = o_id order_1
   \<and> order_1 \<notin> set (orders (delete_customer 1 (persisted sample_ops)))
   \<and> item_pens \<notin> set (order_items (delete_customer 1 (persisted sample_ops)))
   \<and> item_pens \<notin> set (order_items (delete_order 10 (persisted sample_ops)))
   \<and> delete_customer 1 (persisted sample_ops) = empty_db"
proof -
  have a: "order_1 \<in> set (orders (persisted sample_ops))"
    "item_pens \<in> set (order_items (persisted sample_ops))"
    by (simp_all add: persisted_sample sample_db_def)
  have b: "o_customer_id order_1 = 1" "i_order_id item_pens = o_id order_1"
    "i_order_id item_pens = 10"
    by (simp_all add: order_1_def item_pens_def)
  have c: "delete_customer 1 (persisted sample_ops) = empty_db"
    by (simp add: persisted_sample sample_db_def delete_customer_def empty_db_def
        alice_def order_1_def order_2_def item_pens_def item_ink_def item_pads_def)
  from delete_cascades[of 1 sample_ops 10] a b c show ?thesis by blast
qed

text \<open>
  C5. An insert of an order succeeds only if its status is one of \<open>pending\<close>,
  \<open>processing\<close>, \<open>shipped\<close>, \<open>delivered\<close>, \<open>cancelled\<close>; with any other status the
  insert is rejected with an error and the dataset stays as it was.
\<close>

theorem insert_order_status:
  "(\<forall>db'. insert_order ord db = Inr db'
      \<longrightarrow> o_status ord \<in> {''pending'', ''processing'', ''shipped'', ''delivered'', ''cancelled''})
   \<and> (o_status ord \<notin> {''pending'', ''processing'', ''shipped'', ''delivered'', ''cancelled''}
      \<longrightarrow> (\<exists>e. insert_order ord db = Inl e)
        \<and> run [InsertOrder ord] db = db
        \<and> orders (run [InsertOrder ord] db) = orders db)"
proof -
  have s: "set status_values
      = {''pending'', ''processing'', ''shipped'', ''delivered'', ''cancelled''}"
    by (simp add: status_values_def)
  have a: "o_status ord \<in> set status_values" if "insert_order ord db = Inr db'" for db'
    using insert_order_Inr[OF that] by (simp add: order_valid_def check_status_values_def)
  have b: "\<exists>e. insert_order ord db = Inl e" if "o_status ord \<notin> set status_values"
    using that by (simp add: insert_order_def check_status_values_def)
  have c: "run [InsertOrder ord] db = db" if "o_status ord \<notin> set status_values"
    using b[OF that] by auto
  from a b c show ?thesis unfolding s by metis
qed

theorem insert_order_status_witness:
  "(\<exists>db'. insert_order order_2 (persisted [InsertCustomer alice, InsertOrder order_1]) = Inr db')
   \<and> o_status order_2 = ''shipped''
   \<and> (\<exists>e. insert_order (order_2\<lparr>o_status := ''refunded''\<rparr>)
             (persisted [InsertCustomer alice, InsertOrder order_1]) = Inl e)
   \<and> orders (run [InsertOrder (order_2\<lparr>o_status := ''refunded''\<rparr>)]
               (persisted [InsertCustomer alice, InsertOrder order_1])) = [order_1]"
proof -
  let ?db = "persisted [InsertCustomer alice, InsertOrder order_1]"
  have db: "?db = \<lparr>customers = [alice], orders = [order_1], order_items = []\<rparr>"
    by (simp add: persisted_def empty_db_def insert_customer_def insert_order_def
        string_fits_def opt_string_fits_def check_status_values_def status_values_def
        alice_def order_1_def)
  have ok: "\<exists>db'. insert_order order_2 ?db = Inr db'"
    unfolding db
    by (simp add: insert_order_def string_fits_def check_status_values_def status_values_def
        alice_def order_1_def order_2_def)
  have st: "o_status order_2 = ''shipped''"
    by (simp add: order_2_def)
  have bad: "o_status (order_2\<lparr>o_status := ''refunded''\<rparr>)
      \<notin> {''pending'', ''processing'', ''shipped'', ''delivered'', ''cancelled''}"
    by simp
  have "orders ?db = [order_1]"
    by (simp add: db)
  with insert_order_status[of "order_2\<lparr>o_status := ''refunded''\<rparr>" ?db] bad ok st
  show ?thesis by metis
qed



text \<open>
  C7. An insert of a customer whose email is the email of a customer already stored
  fails, also right after the insert that stored the first one. So in every persisted
  dataset the emails identify the customers: two distinct stored customers have
  different emails.
\<close>

theorem customer_email_unique:
  "(\<forall>c \<in> set (customers db). c_email c' = c_email c \<longrightarrow> (\<exists>e. insert_customer c' db = Inl e))
   \<and> (\<forall>db'. insert_customer c1 db = Inr db' \<and> c_email c' = c_email c1
         \<longrightarrow> (\<exists>e. insert_customer c' db' = Inl e))
   \<and> distinct (map c_email (customers (persisted ops)))
   \<and> (\<forall>a \<in> set (customers (persisted ops)). \<forall>b \<in> set (customers (persisted ops)).
         a \<noteq> b \<longrightarrow> c_email a \<noteq> c_email b)"
proof -
  have a: "\<exists>e. insert_customer c' d = Inl e"
    if "c \<in> set (customers d)" "c_email c' = c_email c" for c d
  proof -
    from that have "c_email c' \<in> set (map c_email (customers d))" by force
    then show ?thesis by (simp add: insert_customer_def)
  qed
  have b: "\<exists>e. insert_customer c' db' = Inl e"
    if "insert_customer c1 db = Inr db'" "c_email c' = c_email c1" for db'
  proof -
    from insert_customer_Inr[OF that(1)] have "c1 \<in> set (customers db')" by simp
    from a[OF this that(2)] show ?thesis .
  qed
  have d: "distinct (map c_email (customers (persisted ops)))"
    using persisted_email_unique[of ops] by (simp add: email_unique_def)
  then have "inj_on c_email (set (customers (persisted ops)))"
    by (simp add: distinct_map)
  then have p: "\<forall>a \<in> set (customers (persisted ops)). \<forall>b \<in> set (customers (persisted ops)).
      a \<noteq> b \<longrightarrow> c_email a \<noteq> c_email b"
    by (auto simp: inj_on_def)
  from a b d p show ?thesis by blast
qed

theorem customer_email_unique_witness:
  "alice \<in> set (customers (persisted sample_ops))
   \<and> (\<exists>e. insert_customer (nameless\<lparr>c_email := c_email alice\<rparr>) (persisted sample_ops) = Inl e)
   \<and> (\<exists>db'. insert_customer nameless (persisted sample_ops) = Inr db'
         \<and> (\<exists>e. insert_customer (alice\<lparr>c_id := 3, c_email := c_email nameless\<rparr>) db' = Inl e))
   \<and> map c_email (customers (persisted (sample_ops @ [InsertCustomer nameless])))
       = [''alice@example.com'', ''nobody@example.com'']
   \<and> distinct (map c_email (customers (persisted (sample_ops @ [InsertCustomer nameless]))))"
proof -
  have mem: "alice \<in> set (customers (persisted sample_ops))"
    by (simp add: persisted_sample sample_db_def)
  have eq: "c_email (nameless\<lparr>c_email := c_email alice\<rparr>) = c_email alice"
    "c_email (alice\<lparr>c_id := 3, c_email := c_email nameless\<rparr>) = c_email nameless"
    by simp_all
  have ins: "insert_customer nameless (persisted sample_ops)
      = Inr (sample_db\<lparr>customers := [alice, nameless]\<rparr>)"
    by (simp add: persisted_sample sample_db_def insert_customer_def string_fits_def
        opt_string_fits_def alice_def nameless_def)
  have "persisted (sample_ops @ [InsertCustomer nameless]) = sample_db\<lparr>customers := [alice, nameless]\<rparr>"
    by (simp add: persisted_def sample_ops_def sample_db_def empty_db_def
        insert_customer_def insert_order_def insert_order_item_def
        string_fits_def opt_string_fits_def numeric_fits_def
        check_status_values_def status_values_def check_positive_quantity_def
        check_non_negative_price_def nameless_def
        alice_def order_1_def order_2_def item_pens_def item_ink_def item_pads_def)
  then have emails: "map c_email (customers (persisted (sample_ops @ [InsertCustomer nameless])))
      = [''alice@example.com'', ''nobody@example.com'']"
    by (simp add: alice_def nameless_def)
  from customer_email_unique[of "persisted sample_ops" "nameless\<lparr>c_email := c_email alice\<rparr>"
      nameless "sample_ops @ [InsertCustomer nameless]"]
    customer_email_unique[of "persisted sample_ops"
      "alice\<lparr>c_id := 3, c_email := c_email nameless\<rparr>" nameless sample_ops]
    mem eq ins emails
  show ?thesis by metis
qed

text \<open>
  C8, as stated, fails: the dataset of one customer with an empty name and one order
  without items is not empty and satisfies every constraint of the schema; the
  endpoint answers 200 with an entry whose \<open>item_count\<close> is 0 and whose
  \<open>customer_name\<close> is empty.
\<close>

theorem report_of_bare_order:
  "orders (persisted bare_ops) = [order_bare]
   \<and> get_orders_report 0 (persisted bare_ops)
       = (200, Some \<lparr>report = [\<lparr>order_id = 20, customer_name = [], item_count = 0,
                                  order_date = 7, status = ''pending'', total = 0\<rparr>],
                      metadata = \<lparr>total_orders = 1, execution_time_ms = 0,
                                   query_count = 2\<rparr>\<rparr>)"
  by (simp add: persisted_bare get_orders_report_def orders_report_def report_entry_of_def
      order_customer_def order_items_of_def order_total_def nameless_def order_bare_def)

text \<open>
  C8, amended. On every persisted dataset the endpoint answers 200 with one entry per
  order. The \<open>item_count\<close> of an entry is an integer that is at least 0, and greater
  than 0 exactly when some order item references the order; its \<open>customer_name\<close> is
  not empty exactly when the name of the customer that the order references is not
  empty.
\<close>

theorem report_entries_shape:
  "\<exists>resp. get_orders_report elapsed (persisted ops) = (200, Some resp)
     \<and> length (report resp) = length (orders (persisted ops))
     \<and> (\<forall>k < length (orders (persisted ops)).
          item_count (report resp ! k) \<ge> 0
          \<and> (item_count (report resp ! k) > 0
               \<longleftrightarrow> (\<exists>i \<in> set (order_items (persisted ops)).
                      i_order_id i = o_id (orders (persisted ops) ! k)))
          \<and> (customer_name (report resp ! k) \<noteq> []
               \<longleftrightarrow> (\<exists>c \<in> set (customers (persisted ops)).
                      c_id c = o_customer_id (orders (persisted ops) ! k) \<and> c_name c \<noteq> [])))"
proof -
  let ?db = "persisted ops"
  from orders_report_persisted[of elapsed ops] obtain resp where
    r: "orders_report elapsed ?db = Inr resp"
    and len: "length (report resp) = length (orders ?db)"
    and ent: "\<forall>k < length (orders ?db). report_entry_of ?db (orders ?db ! k) = Inr (report resp ! k)"
    by blast
  from r have g: "get_orders_report elapsed ?db = (200, Some resp)"
    by (simp add: get_orders_report_def)
  have per: "item_count (report resp ! k) \<ge> 0
      \<and> (item_count (report resp ! k) > 0
           \<longleftrightarrow> (\<exists>i \<in> set (order_items ?db). i_order_id i = o_id (orders ?db ! k)))
      \<and> (customer_name (report resp ! k) \<noteq> []
           \<longleftrightarrow> (\<exists>c \<in> set (customers ?db).
                  c_id c = o_customer_id (orders ?db ! k) \<and> c_name c \<noteq> []))"
    if k: "k < length (orders ?db)" for k
  proof -
    let ?ord = "orders ?db ! k"
    from ent k have "report_entry_of ?db ?ord = Inr (report resp ! k)" by simp
    from report_entry_of_fields[OF this] obtain c0 where
      c0: "order_customer ?db ?ord = Some c0" "customer_name (report resp ! k) = c_name c0"
      and cnt: "item_count (report resp ! k)
           = int (length (filter (\<lambda>i. i_order_id i = o_id ?ord) (order_items ?db)))"
      by blast
    from cnt have nonneg: "item_count (report resp ! k) \<ge> 0" by simp
    have "item_count (report resp ! k) > 0
        \<longleftrightarrow> filter (\<lambda>i. i_order_id i = o_id ?ord) (order_items ?db) \<noteq> []"
      using cnt by simp
    then have pos: "item_count (report resp ! k) > 0
        \<longleftrightarrow> (\<exists>i \<in> set (order_items ?db). i_order_id i = o_id ?ord)"
      by (simp add: filter_empty_conv)
    from c0(1) have c0_in: "c0 \<in> set (customers ?db)" "c_id c0 = o_customer_id ?ord"
      by (auto simp: order_customer_def find_Some_iff)
    have same: "c = c0" if "c \<in> set (customers ?db)" "c_id c = o_customer_id ?ord" for c
      using order_customer_unique[OF persisted_pk_unique c0(1) that] .
    have name: "customer_name (report resp ! k) \<noteq> []
        \<longleftrightarrow> (\<exists>c \<in> set (customers ?db). c_id c = o_customer_id ?ord \<and> c_name c \<noteq> [])"
      using c0(2) c0_in same by metis
    from nonneg pos name show ?thesis by blast
  qed
  from g len per show ?thesis by blast
qed

theorem report_entries_shape_witness:
  "\<exists>resp. get_orders_report 0 (persisted sample_ops) = (200, Some resp)
     \<and> map item_count (report resp) = [2, 1]
     \<and> map customer_name (report resp) = [''Alice'', ''Alice'']
     \<and> (\<exists>i \<in> set (order_items (persisted sample_ops)).
           i_order_id i = o_id (orders (persisted sample_ops) ! 0))
     \<and> item_count (report resp ! 0) > 0
     \<and> customer_name (report resp ! 0) \<noteq> []"
proof -
  from report_entries_shape[of 0 sample_ops] obtain resp where
    g: "get_orders_report 0 (persisted sample_ops) = (200, Some resp)"
    and sh: "\<forall>k < length (orders (persisted sample_ops)).
          item_count (report resp ! k) \<ge> 0
          \<and> (item_count (report resp ! k) > 0
               \<longleftrightarrow> (\<exists>i \<in> set (order_items (persisted sample_ops)).
                      i_order_id i = o_id (orders (persisted sample_ops) ! k)))
          \<and> (customer_name (report resp ! k) \<noteq> []
               \<longleftrightarrow> (\<exists>c \<in> set (customers (persisted sample_ops)).
                      c_id c = o_customer_id (orders (persisted sample_ops) ! k)
                      \<and> c_name c \<noteq> []))"
    by blast
  have k0: "0 < length (orders (persisted sample_ops))"
    by (simp add: persisted_sample sample_db_def)
  have it: "\<exists>i \<in> set (order_items (persisted sample_ops)).
      i_order_id i = o_id (orders (persisted sample_ops) ! 0)"
    by (simp add: persisted_sample sample_db_def order_1_def item_pens_def)
  have cu: "\<exists>c \<in> set (customers (persisted sample_ops)).
      c_id c = o_customer_id (orders (persisted sample_ops) ! 0) \<and> c_name c \<noteq> []"
    by (simp add: persisted_sample sample_db_def order_1_def alice_def)
  from sh k0 it cu have pos: "item_count (report resp ! 0) > 0"
    "customer_name (report resp ! 0) \<noteq> []"
    by blast+
  have "get_orders_report 0 (persisted sample_ops)
      = (200, Some \<lparr>report =
            [\<lparr>order_id = 10, customer_name = ''Alice'', item_count = 2,
               order_date = 5, status = ''pending'', total = 1299 / 100\<rparr>,
             \<lparr>order_id = 11, customer_name = ''Alice'', item_count = 1,
               order_date = 6, status = ''shipped'', total = 15 / 2\<rparr>],
          metadata = \<lparr>total_orders = 2, execution_time_ms = 0, query_count = 3\<rparr>\<rparr>)"
    by (simp add: persisted_sample sample_db_def get_orders_report_def orders_report_def
        report_entry_of_def order_customer_def order_items_of_def order_total_def
        unit_price_value_def
        alice_def order_1_def order_2_def item_pens_def item_ink_def item_pads_def)
  with g have maps: "map item_count (report resp) = [2, 1]"
    "map customer_name (report resp) = [''Alice'', ''Alice'']"
    by auto
  show ?thesis
    by (intro exI[of _ resp] conjI) (fact g maps it pos)+
qed




text \<open>
  C10. In every persisted dataset the unit price of an order item is an exact decimal
  of scale 2 and precision 10: a whole number of hundredths of fewer than 11 digits,
  hence of absolute value less than \<open>10^8\<close>. Whatever decimal an insert supplies as
  unit price, the insert is either rejected or stores the decimal rounded to two
  fractional digits: the stored price is a whole number of hundredths, at most half
  a hundredth away from the supplied one and equal to it when the supplied one has
  at most two fractional digits, and below \<open>10^8\<close> in absolute value. A supplied price
  whose rounding needs more than 10 digits, in particular one of absolute value
  \<open>10^8\<close> or more, is rejected; otherwise, when the other supplied values fit their
  columns, the insert is the insert of the row with the rounded price. The dataset
  after an accepted insert is a persisted dataset again.
\<close>

theorem unit_price_numeric_10_2:
  "(\<forall>it \<in> set (order_items (persisted ops)).
      (\<exists>n::int. unit_price_value it * 10 ^ 2 = of_int n \<and> \<bar>n\<bar> < 10 ^ 10)
      \<and> \<bar>unit_price_value it\<bar> < 10 ^ 8)
   \<and> ((\<exists>e. store_order_item v db = Inl e)
       \<or> (\<exists>row. store_order_item v db = Inr (db\<lparr>order_items := order_items db @ [row]\<rparr>)
             \<and> unit_price_value row * 10 ^ 2 = of_int (round_half_away (v_unit_price v * 10 ^ 2))
             \<and> \<bar>unit_price_value row - v_unit_price v\<bar> \<le> 1 / 200
             \<and> ((\<exists>m::int. v_unit_price v * 10 ^ 2 = of_int m)
                  \<longrightarrow> unit_price_value row = v_unit_price v)
             \<and> \<bar>unit_price_value row\<bar> < 10 ^ 8))
   \<and> (\<not> \<bar>round_half_away (v_unit_price v * 10 ^ 2)\<bar> < 10 ^ 10
      \<longrightarrow> (\<exists>e. store_order_item v db = Inl e))
   \<and> (\<bar>v_unit_price v\<bar> \<ge> 10 ^ 8 \<longrightarrow> (\<exists>e. store_order_item v db = Inl e))
   \<and> (integer_fits (v_id v) \<and> integer_fits (v_order_id v) \<and> integer_fits (v_quantity v)
        \<and> (length (v_product_name v) \<le> 200
             \<or> list_all (\<lambda>ch. ch = CHR '' '') (drop 200 (v_product_name v)))
        \<and> \<bar>round_half_away (v_unit_price v * 10 ^ 2)\<bar> < 10 ^ 10
      \<longrightarrow> store_order_item v db
          = insert_order_item
              \<lparr>i_id = v_id v, i_order_id = v_order_id v,
                 i_product_name = take 200 (v_product_name v), i_quantity = v_quantity v,
                 i_unit_price = round_half_away (v_unit_price v * 10 ^ 2)\<rparr> db)
   \<and> (\<forall>db'. store_order_item v (persisted ops) = Inr db'
         \<longrightarrow> (\<exists>ops'. db' = persisted ops'))"
proof -
  have t: "integer_fits (v_id v) \<and> integer_fits (v_order_id v) \<and> integer_fits (v_quantity v)
        \<and> (length (v_product_name v) \<le> 200
             \<or> list_all (\<lambda>ch. ch = CHR '' '') (drop 200 (v_product_name v)))
        \<and> \<bar>round_half_away (v_unit_price v * 10 ^ 2)\<bar> < 10 ^ 10
      \<longrightarrow> store_order_item v db
          = insert_order_item
              \<lparr>i_id = v_id v, i_order_id = v_order_id v,
                 i_product_name = take 200 (v_product_name v), i_quantity = v_quantity v,
                 i_unit_price = round_half_away (v_unit_price v * 10 ^ 2)\<rparr> db"
    using store_order_item_truncates by blast
  have a: "(\<exists>n::int. unit_price_value it * 10 ^ 2 = of_int n \<and> \<bar>n\<bar> < 10 ^ 10)
      \<and> \<bar>unit_price_value it\<bar> < 10 ^ 8"
    if "it \<in> set (order_items (persisted ops))" for it
  proof -
    from that persisted_rows_valid[of ops] have fits: "numeric_fits 10 (i_unit_price it)"
      by (auto simp: rows_valid_def list_all_iff order_item_valid_def)
    have "unit_price_value it * 10 ^ 2 = of_int (i_unit_price it)"
      by (simp add: unit_price_value_def)
    moreover from fits have "\<bar>i_unit_price it\<bar> < 10 ^ 10"
      by (simp add: numeric_fits_def)
    moreover from fits have "\<bar>unit_price_value it\<bar> < 10 ^ 8"
      by (rule unit_price_value_bound[THEN iffD2])
    ultimately show ?thesis by blast
  qed
  have b: "\<exists>row. store_order_item v db = Inr (db\<lparr>order_items := order_items db @ [row]\<rparr>)
        \<and> unit_price_value row * 10 ^ 2 = of_int (round_half_away (v_unit_price v * 10 ^ 2))
        \<and> \<bar>unit_price_value row - v_unit_price v\<bar> \<le> 1 / 200
        \<and> ((\<exists>m::int. v_unit_price v * 10 ^ 2 = of_int m)
             \<longrightarrow> unit_price_value row = v_unit_price v)
        \<and> \<bar>unit_price_value row\<bar> < 10 ^ 8"
    if ok: "store_order_item v db = Inr db'" for db'
  proof -
    from store_order_item_row[OF ok] obtain row where
      r: "db' = db\<lparr>order_items := order_items db @ [row]\<rparr>"
        "i_unit_price row = round_half_away (v_unit_price v * 10 ^ 2)"
        "numeric_fits 10 (i_unit_price row)"
      by blast
    let ?p = "v_unit_price v"
    have val: "unit_price_value row * 10 ^ 2 = of_int (round_half_away (?p * 10 ^ 2))"
      by (simp add: unit_price_value_def r(2))
    have "\<bar>of_int (round_half_away (?p * 10 ^ 2)) - ?p * 10 ^ 2\<bar> \<le> 1 / 2"
      by (rule round_half_away_near)
    with val have "\<bar>unit_price_value row * 10 ^ 2 - ?p * 10 ^ 2\<bar> \<le> 1 / 2"
      by (simp only:)
    moreover have "unit_price_value row * 10 ^ 2 - ?p * 10 ^ 2
        = (unit_price_value row - ?p) * 100"
      by (simp add: algebra_simps)
    ultimately have "\<bar>(unit_price_value row - ?p) * 100\<bar> \<le> 1 / 2"
      by (simp only:)
    then have "\<bar>unit_price_value row - ?p\<bar> * 100 \<le> 1 / 2"
      by (simp only: abs_mult abs_numeral)
    then have near: "\<bar>unit_price_value row - ?p\<bar> \<le> 1 / 200"
      by simp
    have grid: "unit_price_value row = ?p" if "\<exists>m::int. ?p * 10 ^ 2 = of_int m"
    proof -
      from that obtain m :: int where m: "?p * 10 ^ 2 = of_int m" by blast
      with val have "unit_price_value row * 10 ^ 2 = ?p * 10 ^ 2"
        by (simp only: round_half_away_of_int)
      then show ?thesis by simp
    qed
    from r(3) have bound: "\<bar>unit_price_value row\<bar> < 10 ^ 8"
      by (rule unit_price_value_bound[THEN iffD2])
    from ok r(1) val near grid bound show ?thesis by blast
  qed
  have c: "\<exists>e. store_order_item v db = Inl e"
    if h: "\<not> \<bar>round_half_away (v_unit_price v * 10 ^ 2)\<bar> < 10 ^ 10"
  proof (cases "store_order_item v db")
    case (Inl e)
    then show ?thesis by blast
  next
    case (Inr db')
    from store_order_item_row[OF Inr] h show ?thesis
      by (auto simp: numeric_fits_def)
  qed
  have d: "\<exists>e. store_order_item v db = Inl e" if h: "\<bar>v_unit_price v\<bar> \<ge> 10 ^ 8"
  proof -
    from h have "\<bar>v_unit_price v * 10 ^ 2\<bar> \<ge> of_int (10 ^ 10)"
      by (simp add: abs_mult)
    from round_half_away_large[OF this]
    have "\<not> \<bar>round_half_away (v_unit_price v * 10 ^ 2)\<bar> < 10 ^ 10"
      by simp
    then show ?thesis by (rule c)
  qed
  have e: "\<forall>db'. store_order_item v (persisted ops) = Inr db'
         \<longrightarrow> (\<exists>ops'. db' = persisted ops')"
    using store_order_item_persisted by blast
  have b': "(\<exists>e. store_order_item v db = Inl e)
       \<or> (\<exists>row. store_order_item v db = Inr (db\<lparr>order_items := order_items db @ [row]\<rparr>)
             \<and> unit_price_value row * 10 ^ 2 = of_int (round_half_away (v_unit_price v * 10 ^ 2))
             \<and> \<bar>unit_price_value row - v_unit_price v\<bar> \<le> 1 / 200
             \<and> ((\<exists>m::int. v_unit_price v * 10 ^ 2 = of_int m)
                  \<longrightarrow> unit_price_value row = v_unit_price v)
             \<and> \<bar>unit_price_value row\<bar> < 10 ^ 8)"
  proof (cases "store_order_item v db")
    case (Inl e)
    then show ?thesis by blast
  next
    case (Inr db')
    from b[OF Inr] show ?thesis by blast
  qed
  from a b' c d t e show ?thesis by blast
qed

theorem unit_price_numeric_10_2_witness:
  "item_ink \<in> set (order_items (persisted sample_ops))
   \<and> unit_price_value item_ink = 999 / 100 \<and> \<bar>unit_price_value item_ink\<bar> < 10 ^ 8
   \<and> v_unit_price fine_price_values = 9999 / 1000
   \<and> store_order_item fine_price_values (persisted sample_ops)
       = Inr (sample_db\<lparr>order_items := [item_pens, item_ink, item_pads,
                \<lparr>i_id = 103, i_order_id = 11, i_product_name = ''nib'',
                   i_quantity = 1, i_unit_price = 1000\<rparr>]\<rparr>)
   \<and> (\<exists>ops'. sample_db\<lparr>order_items := [item_pens, item_ink, item_pads,
                \<lparr>i_id = 103, i_order_id = 11, i_product_name = ''nib'',
                   i_quantity = 1, i_unit_price = 1000\<rparr>]\<rparr> = persisted ops')
   \<and> round_half_away (v_unit_price huge_price_values * 10 ^ 2) = 10 ^ 10
   \<and> (\<exists>e. store_order_item huge_price_values (persisted sample_ops) = Inl e)
   \<and> store_order_item fine_price_values (persisted sample_ops)
       = insert_order_item
           \<lparr>i_id = v_id fine_price_values, i_order_id = v_order_id fine_price_values,
              i_product_name = take 200 (v_product_name fine_price_values),
              i_quantity = v_quantity fine_price_values,
              i_unit_price = round_half_away (v_unit_price fine_price_values * 10 ^ 2)\<rparr>
           (persisted sample_ops)"
proof -
  have rf: "round_half_away (v_unit_price fine_price_values * 10 ^ 2) = 1000"
    unfolding fine_price_values_def OrderItemValues.simps by (rule round_fine)
  have fits: "integer_fits (v_id fine_price_values)
      \<and> integer_fits (v_order_id fine_price_values)
      \<and> integer_fits (v_quantity fine_price_values)
      \<and> (length (v_product_name fine_price_values) \<le> 200
           \<or> list_all (\<lambda>ch. ch = CHR '' '') (drop 200 (v_product_name fine_price_values)))
      \<and> \<bar>round_half_away (v_unit_price fine_price_values * 10 ^ 2)\<bar> < 10 ^ 10"
    unfolding rf by (simp add: fine_price_values_def integer_fits_def)
  from unit_price_numeric_10_2[of sample_ops fine_price_values "persisted sample_ops"] fits
  have rnd: "store_order_item fine_price_values (persisted sample_ops)
       = insert_order_item
           \<lparr>i_id = v_id fine_price_values, i_order_id = v_order_id fine_price_values,
              i_product_name = take 200 (v_product_name fine_price_values),
              i_quantity = v_quantity fine_price_values,
              i_unit_price = round_half_away (v_unit_price fine_price_values * 10 ^ 2)\<rparr>
           (persisted sample_ops)"
    by blast
  have mem: "item_ink \<in> set (order_items (persisted sample_ops))"
    by (simp add: persisted_sample sample_db_def)
  have v: "unit_price_value item_ink = 999 / 100"
    by (simp add: unit_price_value_def item_ink_def)
  from unit_price_numeric_10_2[of sample_ops fine_price_values "persisted sample_ops"] mem
  have bound: "\<bar>unit_price_value item_ink\<bar> < 10 ^ 8"
    by blast
  have fine: "v_unit_price fine_price_values = 9999 / 1000"
    by (simp add: fine_price_values_def)
  have st: "store_order_item fine_price_values (persisted sample_ops)
       = Inr (sample_db\<lparr>order_items := [item_pens, item_ink, item_pads,
                \<lparr>i_id = 103, i_order_id = 11, i_product_name = ''nib'',
                   i_quantity = 1, i_unit_price = 1000\<rparr>]\<rparr>)"
    by (simp add: persisted_sample sample_db_def fine_price_values_def
        store_order_item_def coerce_order_item_def integer_fits_def varchar_def numeric_fine
        insert_order_item_def string_fits_def numeric_fits_def
        check_positive_quantity_def check_non_negative_price_def
        order_1_def order_2_def item_pens_def item_ink_def item_pads_def)
  from unit_price_numeric_10_2[of sample_ops fine_price_values "persisted sample_ops"] st
  have clo: "\<exists>ops'. sample_db\<lparr>order_items := [item_pens, item_ink, item_pads,
                \<lparr>i_id = 103, i_order_id = 11, i_product_name = ''nib'',
                   i_quantity = 1, i_unit_price = 1000\<rparr>]\<rparr> = persisted ops'"
    by blast
  have huge: "round_half_away (v_unit_price huge_price_values * 10 ^ 2) = 10 ^ 10"
    unfolding huge_price_values_def OrderItemValues.simps by (rule round_huge)
  then have "\<not> \<bar>round_half_away (v_unit_price huge_price_values * 10 ^ 2)\<bar> < 10 ^ 10"
    by simp
  with unit_price_numeric_10_2[of sample_ops huge_price_values "persisted sample_ops"]
  have rej: "\<exists>e. store_order_item huge_price_values (persisted sample_ops) = Inl e"
    by blast
  show ?thesis
    by (intro conjI) (fact mem v bound fine st clo huge rej rnd)+
qed

end
